theory Spec2Isabelle
  imports Main "HOL-Library.Sublist"
begin

section \<open>Time, durations and the constants of the exporter\<close>

text \<open>
  Go's \<^verbatim>\<open>time.Duration\<close> is a count of nanoseconds; a wall-clock instant is
  modelled as the nanoseconds elapsed since the Unix epoch. Both are integers.
\<close>

type_synonym Duration = int
type_synonym Time = int

definition Second :: Duration where
  "Second = 1000000000"

definition Minute :: Duration where
  "Minute = 60 * Second"

text \<open>The constant block of \<^verbatim>\<open>main.go\<close> (lines 22 to 34).\<close>

definition defaultRequestTimeout :: Duration where
  "defaultRequestTimeout = 59 * Second"

definition garbageCollectorSleep :: Duration where
  "garbageCollectorSleep = 1 * Minute"

definition garbageCollectorResourceAge :: Duration where
  "garbageCollectorResourceAge = 15 * Minute"

definition resourceTag :: string where
  "resourceTag = ''openstack-client-exporter''"

text \<open>\<^verbatim>\<open>Time.Unix()\<close>: whole seconds since the epoch, rounded towards minus infinity.\<close>

definition Unix :: "Time \<Rightarrow> int" where
  "Unix t = t div Second"

text \<open>An \<^verbatim>\<open>error\<close> is its message.\<close>

type_synonym error = string

section \<open>Contexts\<close>

text \<open>
  A context carries an optional deadline and a cancellation flag. Its \<^verbatim>\<open>Done()\<close>
  channel is closed at instant \<open>t\<close> when it was cancelled or its deadline is not after \<open>t\<close>
  (\<^verbatim>\<open>WithDeadline\<close> cancels at once when \<^verbatim>\<open>time.Until(d) <= 0\<close>).
\<close>

record Context =
  deadline :: "Time option"
  cancelled :: bool

definition Background :: Context where
  "Background = \<lparr>deadline = None, cancelled = False\<rparr>"

definition WithTimeout :: "Context \<Rightarrow> Duration \<Rightarrow> Time \<Rightarrow> Context" where
  "WithTimeout parent timeout now =
     \<lparr>deadline = Some (case deadline parent of
                         None \<Rightarrow> now + timeout
                       | Some cur \<Rightarrow> min cur (now + timeout)),
      cancelled = cancelled parent\<rparr>"

definition Done :: "Context \<Rightarrow> Time \<Rightarrow> bool" where
  "Done ctx t =
     (cancelled ctx \<or> (case deadline ctx of None \<Rightarrow> False | Some d \<Rightarrow> d \<le> t))"

section \<open>The step timer\<close>

text \<open>
  A gauge vector over the single label \<^verbatim>\<open>step\<close>: the value of the gauge of each
  step name, if that gauge exists. \<^verbatim>\<open>SetToCurrentTime\<close> stores the clock's reading.
\<close>

type_synonym GaugeVec = "string \<Rightarrow> Time option"

definition SetToCurrentTime :: "GaugeVec \<Rightarrow> string \<Rightarrow> Time \<Rightarrow> GaugeVec" where
  "SetToCurrentTime timing name now = timing(name \<mapsto> now)"

text \<open>
  A \<^verbatim>\<open>select\<close> statement with one receive case and an optional \<^verbatim>\<open>default\<close>:
  it runs the receive branch when the channel is ready, else the default branch, and
  with no default it waits.
\<close>

datatype 'a selected = Proceeds 'a | Blocks

definition select_recv :: "bool \<Rightarrow> 'a \<Rightarrow> 'a option \<Rightarrow> 'a selected" where
  "select_recv ready onRecv dflt =
     (if ready then Proceeds onRecv
      else case dflt of Some d \<Rightarrow> Proceeds d | None \<Rightarrow> Blocks)"

text \<open>
  \<^verbatim>\<open>step(ctx, timing, name)\<close>. The clock is read twice: \<open>tSet\<close> is the reading
  stored in the gauge, \<open>tCheck\<close> the instant at which the \<^verbatim>\<open>select\<close> looks at
  \<^verbatim>\<open>ctx.Done()\<close>. The result is the updated gauge vector and the returned error
  (\<open>None\<close> for \<^verbatim>\<open>nil\<close>).
\<close>

definition step ::
  "Context \<Rightarrow> GaugeVec \<Rightarrow> string \<Rightarrow> Time \<Rightarrow> Time \<Rightarrow> GaugeVec \<times> error option selected" where
  "step ctx timing name tSet tCheck =
     (SetToCurrentTime timing name tSet,
      select_recv (Done ctx tCheck) (Some (''timeout after '' @ name)) (Some None))"

section \<open>Resource names\<close>

text \<open>
  \<^verbatim>\<open>strconv.FormatInt(i, 10)\<close>: the decimal digits of the magnitude, most significant
  first, after a minus sign when \<open>i\<close> is negative.
\<close>

definition digitChar :: "nat \<Rightarrow> char" where
  "digitChar d = ''0123456789'' ! d"

fun formatBits :: "nat \<Rightarrow> string" where
  "formatBits u =
     (if u < 10 then [digitChar u] else formatBits (u div 10) @ [digitChar (u mod 10)])"

declare formatBits.simps [simp del]

definition FormatInt :: "int \<Rightarrow> string" where
  "FormatInt i = (if i < 0 then CHR ''-'' # formatBits (nat (- i)) else formatBits (nat i))"

text \<open>
  \<^verbatim>\<open>strconv.ParseInt(s, 10, 64)\<close>: an optional sign, then \<^verbatim>\<open>ParseUint\<close> on the
  rest (decimal digits only, at least one, below \<open>2^64\<close>), then the range of a signed
  64-bit integer.
\<close>

datatype NumError = ErrSyntax | ErrRange

definition isDigit :: "char \<Rightarrow> bool" where
  "isDigit c = (48 \<le> (of_char c :: nat) \<and> (of_char c :: nat) \<le> 57)"

definition maxUint64 :: nat where
  "maxUint64 = 2 ^ 64 - 1"

fun ParseUint_loop :: "nat \<Rightarrow> string \<Rightarrow> NumError + nat" where
  "ParseUint_loop n [] = Inr n"
| "ParseUint_loop n (c # cs) =
     (if \<not> isDigit c then Inl ErrSyntax
      else if maxUint64 div 10 + 1 \<le> n then Inl ErrRange
      else let n1 = n * 10 + (of_char c - 48) in
        if maxUint64 < n1 then Inl ErrRange else ParseUint_loop n1 cs)"

definition ParseUint :: "string \<Rightarrow> NumError + nat" where
  "ParseUint s = (if s = [] then Inl ErrSyntax else ParseUint_loop 0 s)"

definition ParseInt :: "string \<Rightarrow> NumError + int" where
  "ParseInt s =
     (case s of
        [] \<Rightarrow> Inl ErrSyntax
      | c # cs \<Rightarrow>
          let neg = (c = CHR ''-'');
              s1 = (if c = CHR ''+'' \<or> c = CHR ''-'' then cs else s)
          in case ParseUint s1 of
               Inl e \<Rightarrow> Inl e
             | Inr un \<Rightarrow>
                 if \<not> neg \<and> 2 ^ 63 \<le> un then Inl ErrRange
                 else if neg \<and> 2 ^ 63 < un then Inl ErrRange
                 else Inr (if neg then - int un else int un))"

text \<open>\<^verbatim>\<open>strings.Split(s, sep)\<close> for a separator of one character.\<close>

fun Split :: "string \<Rightarrow> char \<Rightarrow> string list" where
  "Split [] sep = [[]]"
| "Split (c # cs) sep =
     (if c = sep then [] # Split cs sep
      else (case Split cs sep of w # ws \<Rightarrow> (c # w) # ws | [] \<Rightarrow> [[c]]))"

text \<open>
  \<^verbatim>\<open>createName()\<close>. Its two readings of the environment are arguments: \<open>rnd\<close> is
  what \<^verbatim>\<open>tools.RandomString("", 8)\<close> returned and \<open>now\<close> what \<^verbatim>\<open>time.Now()\<close>
  returned.
\<close>

definition createName :: "string \<Rightarrow> Time \<Rightarrow> string" where
  "createName rnd now = resourceTag @ ''-'' @ rnd @ ''-'' @ FormatInt (Unix now)"

section \<open>The garbage collector's age rule\<close>

text \<open>
  Modelled from the spec: \<^verbatim>\<open>runGarbageCollector\<close> is not among the sources. The spec
  gives a candidate's age as "now - creation timestamp parsed from ResourceName", keeps
  only names that carry the fixed tag, and deletes "every candidate whose age exceeds a
  fixed retention threshold". The timestamp is read from the last segment of the name.
\<close>

definition resourceAge :: "Time \<Rightarrow> string \<Rightarrow> NumError + Duration" where
  "resourceAge now name =
     (case ParseInt (last (Split name CHR ''-'')) of
        Inl e \<Rightarrow> Inl e
      | Inr ts \<Rightarrow> Inr (now - ts * Second))"

definition deletionCandidate :: "Time \<Rightarrow> string \<Rightarrow> bool" where
  "deletionCandidate now name =
     (prefix resourceTag name \<and>
      (case resourceAge now name of
         Inl e \<Rightarrow> False
       | Inr age \<Rightarrow> garbageCollectorResourceAge < age))"

section \<open>The scrape handler\<close>

text \<open>
  The handler is straight-line code around a \<^verbatim>\<open>sync.WaitGroup\<close> and
  \<^verbatim>\<open>go\<close> statements. Its model is the list of the statements it runs, in order;
  the interleaving with the goroutines it starts is given by the scheduler below.
  A context is named by its index in the list of contexts the request has created.
  The statements:
  \<^item> \<open>WgAdd n\<close> is \<^verbatim>\<open>wg.Add(n)\<close>, \<open>WgDone\<close> is \<^verbatim>\<open>wg.Done()\<close>, \<open>WgWait\<close> is
    \<^verbatim>\<open>wg.Wait()\<close>;
  \<^item> \<open>Go g\<close> is \<^verbatim>\<open>go func() { ... }()\<close> with the body \<open>g\<close>;
  \<^item> \<open>Call p c\<close> is the call \<^verbatim>\<open>spawnMain(ctx, registry)\<close> or
    \<^verbatim>\<open>objectStoreMain(ctx, registry)\<close> with context \<open>c\<close>; the statement is done when
    the probe returns;
  \<^item> \<open>ServeHTTP\<close> is \<^verbatim>\<open>promhttp.HandlerFor(registry, ...).ServeHTTP(w, r)\<close>, which
    writes the response;
  \<^item> \<open>Cancel c\<close> is the deferred \<^verbatim>\<open>cancel()\<close> of context \<open>c\<close>;
  \<^item> \<open>Log\<close> is a \<^verbatim>\<open>log.Printf\<close>.
  The registry and its collectors are left out: no claim reads them.
\<close>

datatype probe = SpawnMain | ObjectStoreMain

datatype instr =
    WgAdd int
  | Go "instr list"
  | WgWait
  | ServeHTTP
  | Cancel nat
  | Call probe nat
  | WgDone
  | Log

record scrape =
  contexts :: "Context list"
  body :: "instr list"

text \<open>\<^verbatim>\<open>url.Values\<close> and its \<^verbatim>\<open>Get\<close>: the first value of the key, or the empty string.\<close>

type_synonym Values = "(string \<times> string list) list"

definition Get :: "Values \<Rightarrow> string \<Rightarrow> string" where
  "Get v key = (case map_of v key of None \<Rightarrow> [] | Some [] \<Rightarrow> [] | Some (x # xs) \<Rightarrow> x)"

text \<open>
  \<^verbatim>\<open>metricsHandler\<close> of \<^verbatim>\<open>main.go\<close>. \<^verbatim>\<open>time.ParseDuration\<close> is a parameter;
  \<open>now\<close> is the clock's reading in \<^verbatim>\<open>context.WithTimeout\<close> and \<open>query\<close> is
  \<^verbatim>\<open>r.URL.Query()\<close>.
\<close>

definition metricsHandler ::
  "(string \<Rightarrow> error + Duration) \<Rightarrow> Time \<Rightarrow> Values \<Rightarrow> scrape" where
  "metricsHandler parseDuration now query =
     (let requestTimeout = defaultRequestTimeout;
          timeoutParam = Get query ''timeout'';
          requestTimeout =
            (if timeoutParam \<noteq> []
             then (case parseDuration timeoutParam of
                     Inr v \<Rightarrow> v
                   | Inl err \<Rightarrow> requestTimeout)
             else requestTimeout);
          ctx = WithTimeout Background requestTimeout now
      in \<lparr>contexts = [ctx],
          body = [WgAdd 1, Go [Call SpawnMain 0, WgDone],
                  WgAdd 1, Go [Call ObjectStoreMain 0, WgDone],
                  WgWait,
                  ServeHTTP,
                  Cancel 0]\<rparr>)"

text \<open>
  \<^verbatim>\<open>metricsHandler\<close> of the flag-configured file. The package variables set by the
  flags that the handler reads are the fields of \<open>Flags\<close>.
\<close>

record Flags =
  requestTimeout :: Duration
  disableObjectStore :: bool
  disableInstance :: bool

definition metricsHandler_flags :: "Flags \<Rightarrow> Time \<Rightarrow> Values \<Rightarrow> scrape" where
  "metricsHandler_flags flags now query =
     (let ctx = WithTimeout Background (requestTimeout flags) now
      in \<lparr>contexts = [ctx],
          body =
            (if disableInstance flags \<noteq> True
             then [WgAdd 1, Go [Call SpawnMain 0, WgDone, Log]]
             else [])
            @ (if disableObjectStore flags \<noteq> True
               then [WgAdd 1, Go [Call ObjectStoreMain 0, WgDone, Log],
                     WgWait]
               else [])
            @ [ServeHTTP,
               Cancel 0]\<rparr>)"

section \<open>Goroutines and the wait group\<close>

text \<open>
  The state of one request: what the handler and each goroutine still have to run, the
  wait group's counter, the contexts, the probes started so far, and whether the response
  has been written. A negative counter panics (\<^verbatim>\<open>WaitGroup.Add\<close>).
\<close>

record sched =
  handler :: "instr list"
  goroutines :: "instr list list"
  wg :: int
  ctxs :: "Context list"
  spawned :: "(probe \<times> nat) list"
  responded :: bool
  panicked :: bool

fun calls :: "instr list \<Rightarrow> (probe \<times> nat) list" where
  "calls [] = []"
| "calls (Call p c # rest) = (p, c) # calls rest"
| "calls (i # rest) = calls rest"

fun launched :: "instr list \<Rightarrow> (probe \<times> nat) list" where
  "launched [] = []"
| "launched (Go g # rest) = calls g @ launched rest"
| "launched (i # rest) = launched rest"

text \<open>The probes that were started and have not returned: the calls still ahead of a goroutine.\<close>

definition stillRunning :: "sched \<Rightarrow> (probe \<times> nat) list" where
  "stillRunning s = concat (map calls (goroutines s))"

definition wgAdd :: "int \<Rightarrow> sched \<Rightarrow> sched" where
  "wgAdd n s = (if wg s + n < 0 then s\<lparr>panicked := True\<rparr> else s\<lparr>wg := wg s + n\<rparr>)"

text \<open>One statement; \<open>None\<close> when it cannot proceed (\<^verbatim>\<open>wg.Wait()\<close> on a positive counter).\<close>

fun exec_instr :: "instr \<Rightarrow> sched \<Rightarrow> sched option" where
  "exec_instr (WgAdd n) s = Some (wgAdd n s)"
| "exec_instr (Go g) s =
     Some (s\<lparr>goroutines := goroutines s @ [g], spawned := spawned s @ calls g\<rparr>)"
| "exec_instr WgWait s = (if wg s = 0 then Some s else None)"
| "exec_instr ServeHTTP s = Some (s\<lparr>responded := True\<rparr>)"
| "exec_instr (Cancel c) s =
     Some (if c < length (ctxs s)
           then s\<lparr>ctxs := (ctxs s)[c := (ctxs s ! c)\<lparr>cancelled := True\<rparr>]\<rparr>
           else s)"
| "exec_instr (Call p c) s = Some s"
| "exec_instr WgDone s = Some (wgAdd (- 1) s)"
| "exec_instr Log s = Some s"

datatype tid = Handler | Goroutine nat

definition thread_step :: "tid \<Rightarrow> sched \<Rightarrow> sched option" where
  "thread_step t s =
     (if panicked s then None
      else case t of
        Handler \<Rightarrow>
          (case handler s of
             [] \<Rightarrow> None
           | i # rest \<Rightarrow>
               (case exec_instr i s of
                  None \<Rightarrow> None
                | Some s' \<Rightarrow> Some (s'\<lparr>handler := rest\<rparr>)))
      | Goroutine k \<Rightarrow>
          (if length (goroutines s) \<le> k then None
           else case goroutines s ! k of
             [] \<Rightarrow> None
           | i # rest \<Rightarrow>
               (case exec_instr i s of
                  None \<Rightarrow> None
                | Some s' \<Rightarrow> Some (s'\<lparr>goroutines := (goroutines s')[k := rest]\<rparr>))))"

text \<open>
  A schedule is the order in which threads take their steps; it has no result when it
  picks a thread that cannot step (one that has finished, or waits, or after a panic).
\<close>

fun run :: "tid list \<Rightarrow> sched \<Rightarrow> sched option" where
  "run [] s = Some s"
| "run (t # ts) s = (case thread_step t s of None \<Rightarrow> None | Some s' \<Rightarrow> run ts s')"

definition serve :: "scrape \<Rightarrow> sched" where
  "serve sc =
     \<lparr>handler = body sc, goroutines = [], wg = 0, ctxs = contexts sc, spawned = [],
      responded = False, panicked = False\<rparr>"


text \<open>Shapes used by the invariants: a thread without \<^verbatim>\<open>go\<close> statements, and a
  handler whose goroutines have none.\<close>

fun noGo :: "instr list \<Rightarrow> bool" where
  "noGo [] = True"
| "noGo (Go g # rest) = False"
| "noGo (i # rest) = noGo rest"

fun flat :: "instr list \<Rightarrow> bool" where
  "flat [] = True"
| "flat (Go g # rest) = (noGo g \<and> flat rest)"
| "flat (i # rest) = flat rest"

text \<open>The two shapes together, as a property of a state.\<close>

definition tidy :: "sched \<Rightarrow> bool" where
  "tidy s = (flat (handler s) \<and> list_all noGo (goroutines s))"

text \<open>
  Shapes for the handlers that wait: a goroutine that calls its probe, then
  \<^verbatim>\<open>wg.Done()\<close>, then only logs; and a handler that runs blocks of \<^verbatim>\<open>wg.Add(1)\<close>
  and \<^verbatim>\<open>go\<close>, then \<^verbatim>\<open>wg.Wait()\<close>, the response and the deferred cancel.
\<close>

fun quiet :: "instr list \<Rightarrow> bool" where
  "quiet [] = True"
| "quiet (Log # rest) = quiet rest"
| "quiet (i # rest) = False"

fun probeBody :: "instr list \<Rightarrow> bool" where
  "probeBody (Call p c # WgDone # rest) = quiet rest"
| "probeBody g = False"

fun probeThread :: "instr list \<Rightarrow> bool" where
  "probeThread (Call p c # rest) = probeBody (Call p c # rest)"
| "probeThread (WgDone # rest) = quiet rest"
| "probeThread g = quiet g"

fun owes :: "instr list \<Rightarrow> nat" where
  "owes [] = 0"
| "owes (WgDone # rest) = Suc (owes rest)"
| "owes (i # rest) = owes rest"

fun launches :: "instr list \<Rightarrow> bool" where
  "launches (WgAdd n # Go g # rest) = (n = 1 \<and> probeBody g \<and> launches rest)"
| "launches (WgWait # rest) = (\<exists>c. rest = [ServeHTTP, Cancel c])"
| "launches h = False"

fun midLaunch :: "instr list \<Rightarrow> bool" where
  "midLaunch (Go g # rest) = (probeBody g \<and> launches rest)"
| "midLaunch h = False"

fun afterWait :: "instr list \<Rightarrow> bool" where
  "afterWait [] = True"
| "afterWait [Cancel c] = True"
| "afterWait [ServeHTTP, Cancel c] = True"
| "afterWait h = False"

definition owed :: "sched \<Rightarrow> nat" where
  "owed s = sum_list (map owes (goroutines s))"

text \<open>
  The wait group's counter is the number of \<^verbatim>\<open>wg.Done()\<close> calls still ahead (one more
  between \<^verbatim>\<open>wg.Add(1)\<close> and \<^verbatim>\<open>go\<close>), and after \<^verbatim>\<open>wg.Wait()\<close> none is ahead.
\<close>

definition waits :: "sched \<Rightarrow> bool" where
  "waits s =
     (\<not> panicked s \<and> list_all probeThread (goroutines s) \<and>
      (launches (handler s) \<and> \<not> responded s \<and> wg s = int (owed s)
       \<or> midLaunch (handler s) \<and> \<not> responded s \<and> wg s = 1 + int (owed s)
       \<or> afterWait (handler s) \<and> wg s = 0 \<and> owed s = 0))"

section \<open>Durations written as text\<close>

text \<open>
  \<^verbatim>\<open>time.ParseDuration\<close> of Go's library, on inputs without a decimal point: an
  optional sign, then one or more groups of decimal digits and a unit, summed in an
  unsigned 64-bit integer (the sum wraps at \<open>2^64\<close> before it is compared). The library
  computes a fractional part in floating point, which is left out here: an input with
  \<^verbatim>\<open>.\<close> is refused by this function. The handler's theorems are stated for every
  parser; this one supplies their concrete instances. Error messages are shortened (the
  handler only tests \<^verbatim>\<open>err == nil\<close>).
\<close>

fun leadingInt :: "nat \<Rightarrow> string \<Rightarrow> (nat \<times> string) option" where
  "leadingInt x [] = Some (x, [])"
| "leadingInt x (c # cs) =
     (if \<not> isDigit c then Some (x, c # cs)
      else if 2 ^ 63 div 10 < x then None
      else let x1 = x * 10 + (of_char c - 48) in
        if 2 ^ 63 < x1 then None else leadingInt x1 cs)"

definition unitMap :: "string \<Rightarrow> nat option" where
  "unitMap u =
     (if u = ''ns'' then Some 1
      else if u = ''us'' then Some 1000
      else if u = [char_of (194 :: nat), char_of (181 :: nat), CHR ''s''] then Some 1000
      else if u = [char_of (206 :: nat), char_of (188 :: nat), CHR ''s''] then Some 1000
      else if u = ''ms'' then Some 1000000
      else if u = ''s'' then Some 1000000000
      else if u = ''m'' then Some 60000000000
      else if u = ''h'' then Some 3600000000000
      else None)"

definition unitChar :: "char \<Rightarrow> bool" where
  "unitChar c = (\<not> (c = CHR ''.'' \<or> isDigit c))"

lemma leadingInt_length:
  "leadingInt x s = Some (v, r) \<Longrightarrow> length r \<le> length s"
  by (induction x s rule: leadingInt.induct) (auto simp: Let_def split: if_splits)

function ParseDuration_groups :: "nat \<Rightarrow> string \<Rightarrow> error + nat" where
  "ParseDuration_groups d s =
     (if s = [] then Inr d
      else if \<not> (hd s = CHR ''.'' \<or> isDigit (hd s)) then Inl ''time: invalid duration''
      else case leadingInt 0 s of
        None \<Rightarrow> Inl ''time: invalid duration''
      | Some (v, s1) \<Rightarrow>
          if s1 \<noteq> [] \<and> hd s1 = CHR ''.'' then Inl ''time: fraction (not modelled)''
          else if length s1 = length s then Inl ''time: invalid duration''
          else let u = takeWhile unitChar s1;
                   s2 = dropWhile unitChar s1
          in if u = [] then Inl ''time: missing unit in duration''
             else case unitMap u of
               None \<Rightarrow> Inl ''time: unknown unit in duration''
             | Some unit \<Rightarrow>
                 if 2 ^ 63 div unit < v then Inl ''time: invalid duration''
                 else let d1 = (d + v * unit) mod 2 ^ 64
                   in if 2 ^ 63 < d1 then Inl ''time: invalid duration''
                      else ParseDuration_groups d1 s2)"
  by pat_completeness auto
termination
proof (relation "measure (\<lambda>(d, s). length s)")
  show "wf (measure (\<lambda>(d, s). length s))" by simp
next
  fix d :: nat and s :: string and x2 x y u s2 x2a d1
  assume "leadingInt 0 s = Some x2" and "(x, y) = x2" and "length y \<noteq> length s"
    and "s2 = dropWhile unitChar y"
  then have "length y < length s"
    using leadingInt_length [of 0 s x y] by simp
  moreover have "length (dropWhile unitChar y) \<le> length y"
    by (rule length_dropWhile_le)
  ultimately show "((d1, s2), (d, s)) \<in> measure (\<lambda>(d, s). length s)"
    using \<open>s2 = dropWhile unitChar y\<close> by simp
qed

declare ParseDuration_groups.simps [simp del]

definition ParseDuration_integral :: "string \<Rightarrow> error + Duration" where
  "ParseDuration_integral orig =
     (let neg = (orig \<noteq> [] \<and> hd orig = CHR ''-'');
          s = (if orig \<noteq> [] \<and> (hd orig = CHR ''-'' \<or> hd orig = CHR ''+'') then tl orig else orig)
      in if s = ''0'' then Inr 0
         else if s = [] then Inl ''time: invalid duration''
         else case ParseDuration_groups 0 s of
           Inl e \<Rightarrow> Inl e
         | Inr d \<Rightarrow>
             if neg then Inr (- int d)
             else if 2 ^ 63 - 1 < d then Inl ''time: invalid duration''
             else Inr (int d))"

section \<open>The provider client\<close>

text \<open>
  The fields of \<^verbatim>\<open>tokens.AuthOptions\<close> that \<^verbatim>\<open>getProvider\<close> fills in, and of
  \<^verbatim>\<open>gophercloud.ProviderClient\<close> the ones that matter here; \<open>Context = None\<close> is a
  \<^verbatim>\<open>nil\<close> context. The environment (\<^verbatim>\<open>os.Getenv\<close>) and the two calls into the
  OpenStack library are parameters: \<^verbatim>\<open>openstack.NewClient\<close> returns a client or an
  error, \<^verbatim>\<open>openstack.AuthenticateV3\<close> updates the client it is given and returns an
  error or \<^verbatim>\<open>nil\<close>.
\<close>

record AuthOptions =
  Username :: string
  DomainName :: string
  Password :: string
  ScopeProjectName :: string
  ScopeDomainName :: string

record 'c ProviderClient =
  IdentityEndpoint :: string
  TokenID :: string
  Context :: "'c option"

definition optsFromEnv :: "(string \<Rightarrow> string) \<Rightarrow> AuthOptions" where
  "optsFromEnv Getenv =
     \<lparr>Username = Getenv ''OS_USERNAME'',
      DomainName = Getenv ''OS_USER_DOMAIN_NAME'',
      Password = Getenv ''OS_PASSWORD'',
      ScopeProjectName = Getenv ''OS_PROJECT_NAME'',
      ScopeDomainName = Getenv ''OS_PROJECT_DOMAIN_NAME''\<rparr>"

text \<open>\<^verbatim>\<open>getProvider()\<close> of \<^verbatim>\<open>main.go\<close>.\<close>

definition getProvider ::
  "(string \<Rightarrow> string) \<Rightarrow> (string \<Rightarrow> error + 'c ProviderClient) \<Rightarrow>
   ('c ProviderClient \<Rightarrow> AuthOptions \<Rightarrow> 'c ProviderClient \<times> error option) \<Rightarrow>
   error + 'c ProviderClient" where
  "getProvider Getenv NewClient AuthenticateV3 =
     (let opts = optsFromEnv Getenv
      in case NewClient (Getenv ''OS_AUTH_URL'') of
           Inl err \<Rightarrow> Inl (''cannot create OpenStack client: '' @ err)
         | Inr provider \<Rightarrow>
             (case AuthenticateV3 provider opts of
                (provider, Some err) \<Rightarrow> Inl (''authentication failure: '' @ err)
              | (provider, None) \<Rightarrow> Inr provider))"

text \<open>\<^verbatim>\<open>getProvider(ctx)\<close> of the flag-configured file.\<close>

definition getProvider_ctx ::
  "(string \<Rightarrow> string) \<Rightarrow> (string \<Rightarrow> error + 'c ProviderClient) \<Rightarrow>
   ('c ProviderClient \<Rightarrow> AuthOptions \<Rightarrow> 'c ProviderClient \<times> error option) \<Rightarrow>
   'c \<Rightarrow> error + 'c ProviderClient" where
  "getProvider_ctx Getenv NewClient AuthenticateV3 ctx =
     (let opts = optsFromEnv Getenv
      in case NewClient (Getenv ''OS_AUTH_URL'') of
           Inl err \<Rightarrow> Inl (''cannot create OpenStack client: '' @ err)
         | Inr provider \<Rightarrow>
             (let provider = provider\<lparr>Context := Some ctx\<rparr>
              in case AuthenticateV3 provider opts of
                   (provider, Some err) \<Rightarrow> Inl (''authentication failure: '' @ err)
                 | (provider, None) \<Rightarrow> Inr provider))"

text \<open>
  Modelled from the spec: a provider call made through a client, which belongs to the
  gophercloud library and is not among the sources. Section 5 of the spec has the
  provider calls as the only blocking operations, "bound to the shared context so they
  unblock (with an error) the instant the deadline fires". The library attaches a
  client's context, when it has one, to the request. \<open>sent\<close> is the instant of the call
  and \<open>reply\<close> the instant the cloud's response arrives, if it ever does; the result is
  the instant at which the call returns and what it returns, or \<open>None\<close> when it never
  returns.
\<close>

definition firesAt :: "Context \<Rightarrow> Time \<Rightarrow> Time option" where
  "firesAt ctx sent =
     (if cancelled ctx then Some sent
      else case deadline ctx of None \<Rightarrow> None | Some d \<Rightarrow> Some (max d sent))"

definition Err :: "Context \<Rightarrow> error" where
  "Err ctx = (if cancelled ctx then ''context canceled'' else ''context deadline exceeded'')"

definition Request ::
  "Context ProviderClient \<Rightarrow> Time \<Rightarrow> Time option \<Rightarrow> (Time \<times> (error + unit)) option" where
  "Request client sent reply =
     (case Context client of
        None \<Rightarrow> (case reply of None \<Rightarrow> None | Some r \<Rightarrow> Some (r, Inr ()))
      | Some ctx \<Rightarrow>
          (case firesAt ctx sent of
             None \<Rightarrow> (case reply of None \<Rightarrow> None | Some r \<Rightarrow> Some (r, Inr ()))
           | Some f \<Rightarrow>
               (case reply of
                  None \<Rightarrow> Some (f, Inl (Err ctx))
                | Some r \<Rightarrow>
                    if r < f then Some (r, Inr ()) else Some (f, Inl (Err ctx)))))"

text \<open>
  A cloud for the concrete instances. The environment holds the six variables that
  \<^verbatim>\<open>getProvider\<close> reads; a new client has no token and no context; authentication
  refuses a login without password, user name or user domain, as the library does before
  it sends anything, and otherwise stores a token in the client.
\<close>

definition cloudEnv :: "string \<Rightarrow> string" where
  "cloudEnv name =
     (if name = ''OS_AUTH_URL'' then ''https://keystone.example:5000/v3''
      else if name = ''OS_USERNAME'' then ''probe''
      else if name = ''OS_USER_DOMAIN_NAME'' then ''Default''
      else if name = ''OS_PASSWORD'' then ''secret''
      else if name = ''OS_PROJECT_NAME'' then ''monitoring''
      else if name = ''OS_PROJECT_DOMAIN_NAME'' then ''Default''
      else [])"

definition unsetEnv :: "string \<Rightarrow> string" where
  "unsetEnv name = []"

definition freshClient :: "string \<Rightarrow> error + Context ProviderClient" where
  "freshClient endpoint = Inr \<lparr>IdentityEndpoint = endpoint, TokenID = [], Context = None\<rparr>"

definition passwordLogin ::
  "Context ProviderClient \<Rightarrow> AuthOptions \<Rightarrow> Context ProviderClient \<times> error option" where
  "passwordLogin provider opts =
     (if Password opts = []
      then (provider, Some ''You must provide a password to authenticate'')
      else if Username opts = []
      then (provider, Some ''You must provide exactly one of Username or UserID'')
      else if DomainName opts = []
      then (provider, Some ''You must provide exactly one of DomainID or DomainName'')
      else (provider\<lparr>TokenID := ''token''\<rparr>, None))"

section \<open>Properties of the step timer\<close>

lemma select_recv_without_default_blocks:
  "select_recv False x None = Blocks"
  by (simp add: select_recv_def)

text \<open>
  C2: every call of \<open>step\<close> stores the current time in the gauge of its step name,
  whatever the state of the context (also after the deadline), and leaves the other
  gauges alone; it returns an error exactly when the context is done at the check, and
  \<^verbatim>\<open>nil\<close> otherwise.
\<close>

theorem step_publishes_then_checks:
  "fst (step ctx timing name tSet tCheck) name = Some tSet
   \<and> (\<forall>other. other \<noteq> name \<longrightarrow> fst (step ctx timing name tSet tCheck) other = timing other)
   \<and> snd (step ctx timing name tSet tCheck) =
       Proceeds (if Done ctx tCheck then Some (''timeout after '' @ name) else None)
   \<and> ((\<exists>err. snd (step ctx timing name tSet tCheck) = Proceeds (Some err)) = Done ctx tCheck)"
  by (simp add: step_def SetToCurrentTime_def select_recv_def)

theorem step_publishes_then_checks_witness:
  "fst (step (WithTimeout Background (5 * Second) 0) Map.empty ''create'' (7 * Second) (7 * Second))
     ''create'' = Some (7 * Second)
   \<and> snd (step (WithTimeout Background (5 * Second) 0) Map.empty ''create'' (7 * Second) (7 * Second))
       = Proceeds (Some ''timeout after create'')
   \<and> snd (step (WithTimeout Background (5 * Second) 0) Map.empty ''create'' (3 * Second) (3 * Second))
       = Proceeds None"
  using step_publishes_then_checks
    [of "WithTimeout Background (5 * Second) 0" Map.empty "''create''" "7 * Second" "7 * Second"]
    step_publishes_then_checks
    [of "WithTimeout Background (5 * Second) 0" Map.empty "''create''" "3 * Second" "3 * Second"]
  by (simp add: Done_def WithTimeout_def Background_def Second_def)

text \<open>
  C8: \<open>step\<close> never waits. Its \<^verbatim>\<open>select\<close> has a default branch, so for every
  context, done or not, the call proceeds to a return value.
\<close>

theorem step_never_blocks:
  "\<exists>r. snd (step ctx timing name tSet tCheck) = Proceeds r"
  by (simp add: step_def select_recv_def)

section \<open>Properties of resource names\<close>

lemma Split_nonempty: "Split s sep \<noteq> []"
  by (induction s) (auto split: list.splits)

lemma Split_no_sep: "sep \<notin> set s \<Longrightarrow> Split s sep = [s]"
  by (induction s) auto

lemma Split_append_sep:
  "Split (xs @ sep # ys) sep = Split xs sep @ Split ys sep"
proof (induction xs)
  case Nil
  show ?case by simp
next
  case (Cons a xs)
  obtain w ws where "Split xs sep = w # ws"
    using Split_nonempty [of xs sep] by (cases "Split xs sep") auto
  with Cons show ?case by simp
qed

lemma last_Split_append:
  "sep \<notin> set ds \<Longrightarrow> last (Split (xs @ sep # ds) sep) = ds"
  by (simp add: Split_append_sep Split_no_sep)

lemma below_ten: "(d::nat) < 10 \<Longrightarrow> d \<in> {0, 1, 2, 3, 4, 5, 6, 7, 8, 9}"
  by auto

lemma isDigit_digitChar: "d < 10 \<Longrightarrow> isDigit (digitChar d)"
  using below_ten [of d] by (auto simp: isDigit_def digitChar_def)

lemma digitChar_val: "d < 10 \<Longrightarrow> (of_char (digitChar d) :: nat) - 48 = d"
  using below_ten [of d] by (auto simp: digitChar_def)

lemma isDigit_not_sign: "isDigit c \<Longrightarrow> c \<noteq> CHR ''-'' \<and> c \<noteq> CHR ''+''"
  by (auto simp: isDigit_def)

lemma formatBits_digits: "c \<in> set (formatBits u) \<Longrightarrow> isDigit c"
proof (induction u rule: formatBits.induct)
  case (1 u)
  then show ?case
    by (subst (asm) (2) formatBits.simps) (auto simp: isDigit_digitChar split: if_splits)
qed

lemma formatBits_nonempty: "formatBits u \<noteq> []"
  by (subst formatBits.simps) simp

lemma ParseUint_loop_error_append:
  "ParseUint_loop n xs = Inl e \<Longrightarrow> ParseUint_loop n (xs @ ys) = Inl e"
  by (induction xs arbitrary: n) (auto simp: Let_def split: if_splits)

lemma ParseUint_loop_snoc:
  "ParseUint_loop n xs = Inr m \<Longrightarrow> d < 10 \<Longrightarrow>
   ParseUint_loop n (xs @ [digitChar d]) =
     (if m * 10 + d \<le> maxUint64 then Inr (m * 10 + d) else Inl ErrRange)"
proof (induction xs arbitrary: n)
  case Nil
  then show ?case
    by (auto simp: isDigit_digitChar digitChar_val Let_def maxUint64_def)
next
  case (Cons c cs)
  then show ?case
    by (auto simp: Let_def split: if_splits)
qed

lemma ParseUint_loop_formatBits:
  "ParseUint_loop 0 (formatBits u) = (if u \<le> maxUint64 then Inr u else Inl ErrRange)"
proof (induction u rule: formatBits.induct)
  case (1 u)
  show ?case
  proof (cases "u < 10")
    case True
    then show ?thesis
      by (subst formatBits.simps)
         (simp add: isDigit_digitChar digitChar_val maxUint64_def)
  next
    case False
    have md: "u mod 10 < 10" by simp
    have eq: "u div 10 * 10 + u mod 10 = u" by simp
    show ?thesis
    proof (cases "u div 10 \<le> maxUint64")
      case True
      with 1 False have "ParseUint_loop 0 (formatBits (u div 10)) = Inr (u div 10)" by simp
      from ParseUint_loop_snoc [OF this md] False show ?thesis
        by (subst formatBits.simps) (simp add: eq)
    next
      case False2: False
      with 1 False have "ParseUint_loop 0 (formatBits (u div 10)) = Inl ErrRange" by simp
      from ParseUint_loop_error_append [OF this] False False2 show ?thesis
        by (subst formatBits.simps) (simp add: maxUint64_def)
    qed
  qed
qed

lemma ParseUint_formatBits:
  "ParseUint (formatBits u) = (if u \<le> maxUint64 then Inr u else Inl ErrRange)"
  by (simp add: ParseUint_def formatBits_nonempty ParseUint_loop_formatBits)

lemma formatBits_hd: "\<exists>c cs. formatBits u = c # cs \<and> isDigit c"
proof -
  obtain c cs where "formatBits u = c # cs"
    using formatBits_nonempty [of u] by (cases "formatBits u") auto
  moreover from this have "isDigit c"
    using formatBits_digits [of c u] by simp
  ultimately show ?thesis by blast
qed

lemma ParseInt_formatBits:
  "ParseInt (formatBits u) = (if u < 2 ^ 63 then Inr (int u) else Inl ErrRange)"
proof -
  obtain c cs where f: "formatBits u = c # cs" and d: "isDigit c"
    using formatBits_hd by blast
  from d have ns: "c \<noteq> CHR ''-''" "c \<noteq> CHR ''+''"
    using isDigit_not_sign by blast+
  have "ParseUint (c # cs) = (if u \<le> maxUint64 then Inr u else Inl ErrRange)"
    using ParseUint_formatBits [of u] f by simp
  with ns f show ?thesis
    by (auto simp: ParseInt_def maxUint64_def Let_def)
qed

lemma formatBits_no_sep: "CHR ''-'' \<notin> set (formatBits u)"
  using formatBits_digits isDigit_not_sign by blast

lemma createName_last_segment:
  "last (Split (createName rnd now) CHR ''-'') = formatBits (nat \<bar>Unix now\<bar>)"
proof (cases "Unix now < 0")
  case True
  then have eq: "createName rnd now =
      (resourceTag @ ''-'' @ rnd @ ''-'') @ CHR ''-'' # formatBits (nat \<bar>Unix now\<bar>)"
    by (simp add: createName_def FormatInt_def)
  show ?thesis
    unfolding eq by (rule last_Split_append [OF formatBits_no_sep])
next
  case False
  then have eq: "createName rnd now =
      (resourceTag @ ''-'' @ rnd) @ CHR ''-'' # formatBits (nat \<bar>Unix now\<bar>)"
    by (simp add: createName_def FormatInt_def)
  show ?thesis
    unfolding eq by (rule last_Split_append [OF formatBits_no_sep])
qed

lemma createName_timestamp_magnitude:
  "ParseInt (last (Split (createName rnd now) CHR ''-'')) =
     (if \<bar>Unix now\<bar> < 2 ^ 63 then Inr \<bar>Unix now\<bar> else Inl ErrRange)"
  by (simp add: createName_last_segment ParseInt_formatBits nat_less_iff)

lemma Unix_bounds: "Unix t * Second \<le> t \<and> t < (Unix t + 1) * Second"
  unfolding Unix_def Second_def by (simp add: algebra_simps) presburger





text \<open>
  When the random part has no hyphen (\<^verbatim>\<open>RandomString\<close> draws letters and digits), the
  hyphen-separated segments of a name are those of the tag, then the random part, then
  the timestamp: the tag itself spans three of them.
\<close>

lemma createName_segments:
  "CHR ''-'' \<notin> set rnd \<Longrightarrow> 0 \<le> Unix now \<Longrightarrow>
   Split (createName rnd now) CHR ''-'' =
     [''openstack'', ''client'', ''exporter'', rnd, FormatInt (Unix now)]"
proof -
  assume r: "CHR ''-'' \<notin> set rnd" and n: "0 \<le> Unix now"
  have nosep: "CHR ''-'' \<notin> set (FormatInt (Unix now))"
    using n formatBits_digits isDigit_not_sign by (auto simp: FormatInt_def)
  have tag: "Split resourceTag CHR ''-'' = [''openstack'', ''client'', ''exporter'']"
    by (simp add: resourceTag_def)
  have "createName rnd now = resourceTag @ CHR ''-'' # (rnd @ CHR ''-'' # FormatInt (Unix now))"
    by (simp add: createName_def)
  then show ?thesis
    by (simp only: Split_append_sep Split_no_sep [OF r] Split_no_sep [OF nosep] tag) simp
qed



section \<open>Retention threshold and request timeout\<close>

text \<open>
  C7: the retention threshold (15 minutes) is strictly above the default request timeout
  (59 seconds); hence a resource that a probe creates during a run whose default deadline
  has not yet passed is not a deletion candidate of a sweep at that instant.
\<close>

theorem retention_exceeds_default_timeout:
  "defaultRequestTimeout < garbageCollectorResourceAge
   \<and> (\<forall>start created now rnd.
         start \<le> created
         \<and> \<not> Done (WithTimeout Background defaultRequestTimeout start) now
         \<longrightarrow> \<not> deletionCandidate now (createName rnd created))"
proof -
  have c: "defaultRequestTimeout < garbageCollectorResourceAge"
    by (simp add: defaultRequestTimeout_def garbageCollectorResourceAge_def Minute_def Second_def)
  have "\<not> deletionCandidate now (createName rnd created)"
    if s: "start \<le> created"
      and d: "\<not> Done (WithTimeout Background defaultRequestTimeout start) now"
    for start created now rnd
  proof (cases "\<bar>Unix created\<bar> < 2 ^ 63")
    case False
    then show ?thesis
      by (simp add: deletionCandidate_def resourceAge_def createName_timestamp_magnitude)
  next
    case True
    from d have n: "now < start + defaultRequestTimeout"
      by (simp add: Done_def WithTimeout_def Background_def)
    have b: "created < (Unix created + 1) * Second"
      using Unix_bounds by blast
    have "now - \<bar>Unix created\<bar> * Second \<le> garbageCollectorResourceAge"
    proof (cases "0 \<le> Unix created")
      case True
      with b s n show ?thesis
        by (simp add: defaultRequestTimeout_def garbageCollectorResourceAge_def
            Minute_def Second_def algebra_simps)
    next
      case False
      then have "Unix created \<le> - 1" by simp
      with b have "created < 0" by (simp add: Second_def)
      moreover from False have "0 \<le> \<bar>Unix created\<bar> * Second" by (simp add: Second_def)
      ultimately show ?thesis
        using s n
        by (simp add: defaultRequestTimeout_def garbageCollectorResourceAge_def
            Minute_def Second_def)
    qed
    with True show ?thesis
      by (simp add: deletionCandidate_def resourceAge_def createName_timestamp_magnitude)
  qed
  with c show ?thesis by blast
qed

theorem retention_exceeds_default_timeout_witness:
  "defaultRequestTimeout < garbageCollectorResourceAge
   \<and> \<not> Done (WithTimeout Background defaultRequestTimeout (1700000000 * Second))
         (1700000030 * Second)
   \<and> \<not> deletionCandidate (1700000030 * Second)
         (createName ''aBcD1234'' (1700000000 * Second + 5))"
proof -
  have d: "\<not> Done (WithTimeout Background defaultRequestTimeout (1700000000 * Second))
         (1700000030 * Second)"
    by (simp add: Done_def WithTimeout_def Background_def defaultRequestTimeout_def Second_def)
  have s: "1700000000 * Second \<le> 1700000000 * Second + 5"
    by simp
  from retention_exceeds_default_timeout d s show ?thesis
    by blast
qed

section \<open>Parsing durations: instances\<close>

lemma ParseDuration_integral_examples:
  "ParseDuration_integral ''0s'' = Inr 0"
  "ParseDuration_integral ''-5s'' = Inr (- 5 * Second)"
  "ParseDuration_integral ''5s'' = Inr (5 * Second)"
  "ParseDuration_integral ''soon'' = Inl ''time: invalid duration''"
  "ParseDuration_integral [] = Inl ''time: invalid duration''"
  by (simp_all add: ParseDuration_integral_def ParseDuration_groups.simps isDigit_def
      unitChar_def unitMap_def Second_def)

text \<open>The sum of the groups wraps as the library's unsigned 64-bit sum does.\<close>

lemma ParseDuration_integral_wraps:
  "ParseDuration_integral ''9223372036854775808ns9223372036854775808ns'' = Inr 0"
  by (simp add: ParseDuration_integral_def ParseDuration_groups.simps isDigit_def
      unitChar_def unitMap_def)

section \<open>Goroutines started by the handler\<close>

lemma noGo_launched: "noGo g \<Longrightarrow> launched g = []"
  by (induction g rule: noGo.induct) auto

lemma exec_instr_ctxs:
  "exec_instr i s = Some s' \<Longrightarrow> map deadline (ctxs s') = map deadline (ctxs s)"
  by (cases i) (auto simp: wgAdd_def list_eq_iff_nth_eq nth_list_update split: if_splits)

lemma thread_step_ctxs:
  "thread_step t s = Some s' \<Longrightarrow> map deadline (ctxs s') = map deadline (ctxs s)"
  by (auto simp: thread_step_def split: if_splits tid.splits list.splits option.splits
      dest: exec_instr_ctxs)

lemma run_ctxs:
  "run ts s = Some s' \<Longrightarrow> map deadline (ctxs s') = map deadline (ctxs s)"
proof (induction ts arbitrary: s)
  case Nil
  then show ?case by simp
next
  case (Cons t ts)
  then show ?case
    by (auto split: option.splits dest: thread_step_ctxs)
qed

lemma handler_step_spawned:
  assumes "exec_instr i s = Some s'" and "handler s = i # rest" and "tidy s"
  shows "spawned s' @ launched rest = spawned s @ launched (handler s)
       \<and> flat rest \<and> list_all noGo (goroutines s')"
  using assms by (cases i) (auto simp: tidy_def wgAdd_def split: if_splits)

lemma goroutine_step_spawned:
  assumes "exec_instr i s = Some s'" and "k < length (goroutines s)"
    and "goroutines s ! k = i # rest" and "tidy s"
  shows "spawned s' = spawned s \<and> handler s' = handler s
       \<and> list_all noGo ((goroutines s')[k := rest])"
proof -
  from assms(2-4) have g: "noGo (i # rest)"
    by (auto simp: tidy_def list_all_length)
  then have r: "noGo rest" by (cases i) auto
  from g assms(1) have "spawned s' = spawned s \<and> handler s' = handler s
      \<and> list_all noGo (goroutines s')"
    using assms(4) by (cases i) (auto simp: tidy_def wgAdd_def split: if_splits)
  with r show ?thesis
    using set_update_subset_insert [of "goroutines s'" k rest]
    by (auto simp: list_all_iff)
qed

lemma thread_step_spawned:
  assumes "thread_step t s = Some s'" and "tidy s"
  shows "spawned s' @ launched (handler s') = spawned s @ launched (handler s) \<and> tidy s'"
proof (cases t)
  case Handler
  with assms(1) obtain i rest s1 where h: "handler s = i # rest"
    and e: "exec_instr i s = Some s1" and s': "s' = s1\<lparr>handler := rest\<rparr>"
    by (auto simp: thread_step_def split: if_splits list.splits option.splits)
  from handler_step_spawned [OF e h assms(2)] s' show ?thesis
    by (simp add: tidy_def)
next
  case (Goroutine k)
  with assms(1) obtain i rest s1 where k: "k < length (goroutines s)"
    and g: "goroutines s ! k = i # rest"
    and e: "exec_instr i s = Some s1" and s': "s' = s1\<lparr>goroutines := (goroutines s1)[k := rest]\<rparr>"
    by (auto simp: thread_step_def split: if_splits list.splits option.splits)
  from goroutine_step_spawned [OF e k g assms(2)] s' assms(2) show ?thesis
    by (simp add: tidy_def)
qed

lemma run_spawned:
  "run ts s = Some s' \<Longrightarrow> tidy s \<Longrightarrow>
   spawned s' @ launched (handler s') = spawned s @ launched (handler s)"
proof (induction ts arbitrary: s)
  case Nil
  then show ?case by simp
next
  case (Cons t ts)
  from Cons.prems(1) obtain s1 where st: "thread_step t s = Some s1" and r: "run ts s1 = Some s'"
    by (auto split: option.splits)
  from thread_step_spawned [OF st Cons.prems(2)] Cons.IH [OF r] show ?case
    by simp
qed

lemma run_spawned_subset:
  assumes "run ts (serve sc) = Some s" and "tidy (serve sc)"
  shows "set (spawned s) \<subseteq> set (launched (body sc))"
proof -
  from run_spawned [OF assms] have "spawned s @ launched (handler s) = launched (body sc)"
    by (simp add: serve_def)
  then have "set (spawned s) \<union> set (launched (handler s)) = set (launched (body sc))"
    by (metis set_append)
  then show ?thesis by blast
qed

lemma serve_tidy_main: "tidy (serve (metricsHandler pd now query))"
  by (simp add: tidy_def serve_def metricsHandler_def Let_def)

lemma serve_tidy_flags: "tidy (serve (metricsHandler_flags flags now query))"
  by (simp add: tidy_def serve_def metricsHandler_flags_def Let_def)

lemma launched_main:
  "launched (body (metricsHandler pd now query)) = [(SpawnMain, 0), (ObjectStoreMain, 0)]"
  by (simp add: metricsHandler_def Let_def)

lemma launched_flags:
  "snd ` set (launched (body (metricsHandler_flags flags now query))) \<subseteq> {0}"
  by (simp add: metricsHandler_flags_def Let_def)

lemma body_main:
  "body (metricsHandler pd now query) =
     [WgAdd 1, Go [Call SpawnMain 0, WgDone], WgAdd 1, Go [Call ObjectStoreMain 0, WgDone],
      WgWait, ServeHTTP, Cancel 0]"
  by (simp add: metricsHandler_def Let_def)

lemma main_handler_responds:
  "run [Handler, Handler, Handler, Handler, Goroutine 0, Goroutine 0, Goroutine 1, Goroutine 1,
        Handler, Handler]
     (serve (metricsHandler pd now query)) =
   Some \<lparr>handler = [Cancel 0], goroutines = [[], []], wg = 0,
         ctxs = contexts (metricsHandler pd now query),
         spawned = [(SpawnMain, 0), (ObjectStoreMain, 0)], responded = True,
         panicked = False\<rparr>"
  by (simp add: serve_def body_main thread_step_def wgAdd_def)



text \<open>
  C5: a request creates one context, by \<^verbatim>\<open>WithTimeout\<close> from the background context at
  the request's timeout, and every probe goroutine started for the request is given that
  context (index 0), whose deadline no step changes; so in both files.
\<close>

theorem one_shared_context:
  "(\<exists>d. contexts (metricsHandler pd now query) = [WithTimeout Background d now])
   \<and> contexts (metricsHandler_flags flags now query) =
       [WithTimeout Background (requestTimeout flags) now]
   \<and> (\<forall>ts s. run ts (serve (metricsHandler pd now query)) = Some s \<longrightarrow>
         map deadline (ctxs s) = map deadline (contexts (metricsHandler pd now query))
         \<and> snd ` set (spawned s) \<subseteq> {0})
   \<and> (\<forall>ts s. run ts (serve (metricsHandler_flags flags now query)) = Some s \<longrightarrow>
         map deadline (ctxs s) = map deadline (contexts (metricsHandler_flags flags now query))
         \<and> snd ` set (spawned s) \<subseteq> {0})"
proof (intro conjI allI impI)
  show "\<exists>d. contexts (metricsHandler pd now query) = [WithTimeout Background d now]"
    by (auto simp: metricsHandler_def Let_def)
next
  show "contexts (metricsHandler_flags flags now query) =
       [WithTimeout Background (requestTimeout flags) now]"
    by (simp add: metricsHandler_flags_def Let_def)
next
  fix ts s
  assume r: "run ts (serve (metricsHandler pd now query)) = Some s"
  from run_ctxs [OF r]
  show "map deadline (ctxs s) = map deadline (contexts (metricsHandler pd now query))"
    by (simp add: serve_def)
  from run_spawned_subset [OF r serve_tidy_main]
  have "set (spawned s) \<subseteq> {(SpawnMain, 0), (ObjectStoreMain, 0)}"
    by (simp add: launched_main)
  then show "snd ` set (spawned s) \<subseteq> {0}"
    by auto
next
  fix ts s
  assume r: "run ts (serve (metricsHandler_flags flags now query)) = Some s"
  from run_ctxs [OF r]
  show "map deadline (ctxs s) = map deadline (contexts (metricsHandler_flags flags now query))"
    by (simp add: serve_def)
  from run_spawned_subset [OF r serve_tidy_flags]
  have "snd ` set (spawned s) \<subseteq> snd ` set (launched (body (metricsHandler_flags flags now query)))"
    by (rule image_mono)
  with launched_flags [of flags now query] show "snd ` set (spawned s) \<subseteq> {0}"
    by (rule order_trans [rotated])
qed

theorem one_shared_context_witness:
  "run [Handler, Handler, Handler, Handler]
     (serve (metricsHandler ParseDuration_integral 0 [(''timeout'', [''5s''])])) =
     Some \<lparr>handler = [WgWait, ServeHTTP, Cancel 0],
           goroutines = [[Call SpawnMain 0, WgDone], [Call ObjectStoreMain 0, WgDone]], wg = 2,
           ctxs = [\<lparr>deadline = Some (5 * Second), cancelled = False\<rparr>],
           spawned = [(SpawnMain, 0), (ObjectStoreMain, 0)], responded = False,
           panicked = False\<rparr>
   \<and> contexts (metricsHandler ParseDuration_integral 0 [(''timeout'', [''5s''])]) =
       [\<lparr>deadline = Some (5 * Second), cancelled = False\<rparr>]
   \<and> snd ` set [(SpawnMain, 0 :: nat), (ObjectStoreMain, 0)] \<subseteq> {0}"
proof -
  define H where "H = metricsHandler ParseDuration_integral 0 [(''timeout'', [''5s''])]"
  define S where "S = \<lparr>handler = [WgWait, ServeHTTP, Cancel 0],
           goroutines = [[Call SpawnMain 0, WgDone], [Call ObjectStoreMain 0, WgDone]], wg = 2,
           ctxs = [\<lparr>deadline = Some (5 * Second), cancelled = False\<rparr>],
           spawned = [(SpawnMain, 0), (ObjectStoreMain, 0)], responded = False,
           panicked = False\<rparr>"
  have c: "contexts H = [\<lparr>deadline = Some (5 * Second), cancelled = False\<rparr>]"
    unfolding H_def
    by (simp add: metricsHandler_def Get_def ParseDuration_integral_examples
        WithTimeout_def Background_def)
  have r: "run [Handler, Handler, Handler, Handler] (serve H) = Some S"
    unfolding H_def S_def
    by (simp add: metricsHandler_def Get_def ParseDuration_integral_examples serve_def
        thread_step_def wgAdd_def WithTimeout_def Background_def)
  note T = one_shared_context
    [of ParseDuration_integral 0 "[(''timeout'', [''5s''])]" undefined, folded H_def]
  from T [THEN conjunct2, THEN conjunct2, THEN conjunct1, rule_format, OF r]
  have "snd ` set (spawned S) \<subseteq> {0}" by (rule conjunct2)
  then have "snd ` set [(SpawnMain, 0 :: nat), (ObjectStoreMain, 0)] \<subseteq> {0}"
    by (simp add: S_def)
  with c r show ?thesis
    unfolding H_def S_def by simp
qed


section \<open>The response and the probes\<close>

lemma quiet_owes: "quiet g \<Longrightarrow> owes g = 0"
  by (induction g rule: quiet.induct) auto

lemma quiet_calls: "quiet g \<Longrightarrow> calls g = []"
  by (induction g rule: quiet.induct) auto

lemma probeBody_shape:
  "probeBody g \<Longrightarrow> \<exists>p c rest. g = Call p c # WgDone # rest \<and> quiet rest"
  by (induction g rule: probeBody.induct) auto

lemma probeBody_thread: "probeBody g \<Longrightarrow> probeThread g \<and> owes g = 1"
  by (auto dest!: probeBody_shape simp: quiet_owes)

lemma probeThread_cases:
  assumes "probeThread (i # rest)"
  shows "(\<exists>p c r. i = Call p c \<and> rest = WgDone # r \<and> quiet r)
       \<or> (i = WgDone \<and> quiet rest) \<or> (i = Log \<and> quiet rest)"
  using assms by (cases i) (auto dest!: probeBody_shape)

lemma probeThread_idle: "probeThread g \<Longrightarrow> owes g = 0 \<Longrightarrow> calls g = []"
  by (cases g) (auto dest!: probeThread_cases simp: quiet_calls)

lemma launches_cases:
  assumes "launches (i # rest)"
  shows "(\<exists>g r. i = WgAdd 1 \<and> rest = Go g # r \<and> probeBody g \<and> launches r)
       \<or> (\<exists>c. i = WgWait \<and> rest = [ServeHTTP, Cancel c])"
  using assms by (induction "i # rest" rule: launches.induct) auto

lemma launches_nonempty: "launches h \<Longrightarrow> h \<noteq> []"
  by auto

lemma midLaunch_cases:
  assumes "midLaunch (i # rest)"
  shows "\<exists>g. i = Go g \<and> probeBody g \<and> launches rest"
  using assms by (cases i) auto

lemma afterWait_cases:
  assumes "afterWait (i # rest)"
  shows "(\<exists>c. i = ServeHTTP \<and> rest = [Cancel c]) \<or> (\<exists>c. i = Cancel c \<and> rest = [])"
  using assms by (induction "i # rest" rule: afterWait.induct) auto

lemma owed_update:
  assumes "k < length (goroutines s)"
  shows "sum_list (map owes ((goroutines s)[k := rest])) + owes (goroutines s ! k) =
         owed s + owes rest"
proof -
  have "owes (goroutines s ! k) \<le> owed s"
    unfolding owed_def using assms by (intro member_le_sum_list) auto
  then show ?thesis
    using assms by (simp add: owed_def map_update sum_list_update)
qed

lemma owed_append: "owed (s\<lparr>goroutines := goroutines s @ [g]\<rparr>) = owed s + owes g"
  by (simp add: owed_def)

lemma handler_step_waits:
  assumes w: "waits s" and h: "handler s = i # rest" and e: "exec_instr i s = Some s1"
  shows "waits (s1\<lparr>handler := rest\<rparr>)"
proof -
  from w have np: "\<not> panicked s" and pt: "list_all probeThread (goroutines s)"
    by (simp_all add: waits_def)
  from w h consider
      (launch) "launches (i # rest)" "\<not> responded s" "wg s = int (owed s)"
    | (mid) "midLaunch (i # rest)" "\<not> responded s" "wg s = 1 + int (owed s)"
    | (after) "afterWait (i # rest)" "wg s = 0" "owed s = 0"
    by (auto simp: waits_def)
  then show ?thesis
  proof cases
    case launch
    from launches_cases [OF launch(1)] show ?thesis
    proof (elim disjE exE conjE)
      fix g r
      assume "i = WgAdd 1" "rest = Go g # r" "probeBody g" "launches r"
      with e launch np pt show ?thesis
        by (auto simp: waits_def wgAdd_def owed_def)
    next
      fix c
      assume "i = WgWait" "rest = [ServeHTTP, Cancel c]"
      with e launch np pt show ?thesis
        by (auto simp: waits_def owed_def split: if_splits)
    qed
  next
    case mid
    from midLaunch_cases [OF mid(1)] obtain g where
      g: "i = Go g" "probeBody g" "launches rest" by blast
    from g(2) have "probeThread g" "owes g = 1"
      using probeBody_thread by blast+
    with e g mid np pt show ?thesis
      by (auto simp: waits_def owed_def)
  next
    case after
    from afterWait_cases [OF after(1)] show ?thesis
    proof (elim disjE exE conjE)
      fix c
      assume "i = ServeHTTP" "rest = [Cancel c]"
      with e after np pt show ?thesis
        by (auto simp: waits_def owed_def)
    next
      fix c
      assume "i = Cancel c" "rest = []"
      with e after np pt show ?thesis
        by (cases "c < length (ctxs s)") (auto simp: waits_def owed_def)
    qed
  qed
qed

lemma waits_transfer:
  assumes "waits s" and "\<not> panicked s'" and "handler s' = handler s"
    and "responded s' = responded s" and "list_all probeThread (goroutines s')"
    and "wg s' - int (owed s') = wg s - int (owed s)" and "owed s' \<le> owed s"
  shows "waits s'"
  using assms by (auto simp: waits_def)

lemma goroutine_step_waits:
  assumes w: "waits s" and k: "k < length (goroutines s)"
    and g: "goroutines s ! k = i # rest" and e: "exec_instr i s = Some s1"
  shows "waits (s1\<lparr>goroutines := (goroutines s1)[k := rest]\<rparr>)"
proof -
  from w have np: "\<not> panicked s" and pt: "list_all probeThread (goroutines s)"
    by (simp_all add: waits_def)
  from pt k g have t: "probeThread (i # rest)"
    by (auto simp: list_all_length)
  define n where "n = sum_list (map owes ((goroutines s)[k := rest]))"
  have upd: "n + owes (i # rest) = owed s + owes rest"
    unfolding n_def using owed_update [OF k, of rest] g by simp
  have keep: "list_all probeThread ((goroutines s)[k := rest])" if "probeThread rest"
    using pt that set_update_subset_insert [of "goroutines s" k rest]
    by (auto simp: list_all_iff)
  have quiet_thread: "probeThread r" if "quiet r" for r
    using that by (cases r rule: probeThread.cases) auto
  from probeThread_cases [OF t] show ?thesis
  proof (elim disjE exE conjE)
    fix p c r
    assume i: "i = Call p c" "rest = WgDone # r" "quiet r"
    then have pr: "probeThread rest" by simp
    from i e have s1: "s1 = s" by simp
    from upd i have "n = owed s" by simp
    then have "owed (s\<lparr>goroutines := (goroutines s)[k := rest]\<rparr>) = owed s"
      by (simp add: owed_def n_def)
    with w np keep [OF pr] show ?thesis
      unfolding s1 by (intro waits_transfer [OF w]) simp_all
  next
    assume i: "i = WgDone" "quiet rest"
    from i have o: "owes rest = 0" by (simp add: quiet_owes)
    with upd i have u: "Suc n = owed s" by simp
    with w have "0 \<le> wg s - 1"
      by (auto simp: waits_def)
    with e i have s1: "s1 = s\<lparr>wg := wg s - 1\<rparr>"
      by (simp add: wgAdd_def)
    have "owed (s\<lparr>wg := wg s - 1, goroutines := (goroutines s)[k := rest]\<rparr>) = n"
      by (simp add: owed_def n_def)
    with u np keep [OF quiet_thread [OF i(2)]] show ?thesis
      unfolding s1 by (intro waits_transfer [OF w]) simp_all
  next
    assume i: "i = Log" "quiet rest"
    from i have o: "owes rest = 0" by (simp add: quiet_owes)
    from i e have s1: "s1 = s" by simp
    from upd i o have "n = owed s" by simp
    then have "owed (s\<lparr>goroutines := (goroutines s)[k := rest]\<rparr>) = owed s"
      by (simp add: owed_def n_def)
    with np keep [OF quiet_thread [OF i(2)]] show ?thesis
      unfolding s1 by (intro waits_transfer [OF w]) simp_all
  qed
qed

lemma thread_step_waits:
  assumes "thread_step t s = Some s'" and "waits s"
  shows "waits s'"
proof (cases t)
  case Handler
  with assms(1) obtain i rest s1 where "handler s = i # rest"
    and "exec_instr i s = Some s1" and "s' = s1\<lparr>handler := rest\<rparr>"
    by (auto simp: thread_step_def split: if_splits list.splits option.splits)
  with handler_step_waits [OF assms(2)] show ?thesis by simp
next
  case (Goroutine k)
  with assms(1) obtain i rest s1 where "k < length (goroutines s)"
    and "goroutines s ! k = i # rest"
    and "exec_instr i s = Some s1" and "s' = s1\<lparr>goroutines := (goroutines s1)[k := rest]\<rparr>"
    by (auto simp: thread_step_def split: if_splits list.splits option.splits)
  with goroutine_step_waits [OF assms(2)] show ?thesis by simp
qed

lemma run_waits: "run ts s = Some s' \<Longrightarrow> waits s \<Longrightarrow> waits s'"
proof (induction ts arbitrary: s)
  case Nil
  then show ?case by simp
next
  case (Cons t ts)
  from Cons.prems(1) obtain s1 where st: "thread_step t s = Some s1" and r: "run ts s1 = Some s'"
    by (auto split: option.splits)
  from Cons.IH [OF r thread_step_waits [OF st Cons.prems(2)]] show ?case .
qed

lemma waits_responded:
  assumes "waits s" and "responded s"
  shows "stillRunning s = []"
proof -
  from assms have o: "owed s = 0" and pt: "list_all probeThread (goroutines s)"
    by (auto simp: waits_def)
  have "calls g = []" if "g \<in> set (goroutines s)" for g
  proof -
    from o that have "owes g = 0" by (auto simp: owed_def)
    moreover from pt that have "probeThread g" by (simp add: list_all_iff)
    ultimately show ?thesis by (rule probeThread_idle [rotated])
  qed
  then show ?thesis
    by (simp add: stillRunning_def)
qed

lemma serve_waits_main: "waits (serve (metricsHandler pd now query))"
  by (simp add: waits_def serve_def body_main owed_def)

lemma serve_waits_flags:
  "\<not> disableObjectStore flags \<or> disableInstance flags \<Longrightarrow>
   waits (serve (metricsHandler_flags flags now query))"
  by (auto simp: waits_def serve_def metricsHandler_flags_def Let_def owed_def)

text \<open>
  The handler of \<^verbatim>\<open>main.go\<close> waits: under every schedule, once the response has been
  written no probe it started is still running.
\<close>

theorem main_handler_waits:
  "run ts (serve (metricsHandler pd now query)) = Some s \<Longrightarrow> responded s \<Longrightarrow>
   stillRunning s = []"
  using run_waits [OF _ serve_waits_main] waits_responded by blast

text \<open>
  So does the flag-configured handler when the object store is enabled, and when both
  probes are disabled.
\<close>

theorem flags_handler_waits:
  "\<not> disableObjectStore flags \<or> disableInstance flags \<Longrightarrow>
   run ts (serve (metricsHandler_flags flags now query)) = Some s \<Longrightarrow> responded s \<Longrightarrow>
   stillRunning s = []"
  using run_waits [OF _ serve_waits_flags] waits_responded by blast

theorem main_handler_waits_witness:
  "run [Handler, Handler, Handler, Handler, Goroutine 0, Goroutine 0, Goroutine 1, Goroutine 1,
        Handler, Handler]
     (serve (metricsHandler ParseDuration_integral 0 [])) =
     Some \<lparr>handler = [Cancel 0], goroutines = [[], []], wg = 0,
           ctxs = [\<lparr>deadline = Some (59 * Second), cancelled = False\<rparr>],
           spawned = [(SpawnMain, 0), (ObjectStoreMain, 0)], responded = True,
           panicked = False\<rparr>
   \<and> stillRunning \<lparr>handler = [Cancel 0], goroutines = [[], []], wg = 0,
           ctxs = [\<lparr>deadline = Some (59 * Second), cancelled = False\<rparr>],
           spawned = [(SpawnMain, 0), (ObjectStoreMain, 0)], responded = True,
           panicked = False\<rparr> = []"
proof -
  define S where "S = \<lparr>handler = [Cancel 0], goroutines = [[], []], wg = 0,
           ctxs = [\<lparr>deadline = Some (59 * Second), cancelled = False\<rparr>],
           spawned = [(SpawnMain, 0), (ObjectStoreMain, 0)], responded = True,
           panicked = False\<rparr>"
  have c: "contexts (metricsHandler ParseDuration_integral 0 []) =
      [\<lparr>deadline = Some (59 * Second), cancelled = False\<rparr>]"
    by (simp add: metricsHandler_def Get_def WithTimeout_def Background_def
        defaultRequestTimeout_def)
  have r: "run [Handler, Handler, Handler, Handler, Goroutine 0, Goroutine 0, Goroutine 1,
        Goroutine 1, Handler, Handler]
     (serve (metricsHandler ParseDuration_integral 0 [])) = Some S"
    unfolding S_def using main_handler_responds [of ParseDuration_integral 0 "[]"]
    by (simp only: c)
  have resp: "responded S"
    by (simp add: S_def)
  from r main_handler_waits [OF r resp] show ?thesis
    unfolding S_def by (intro conjI)
qed

theorem flags_handler_waits_witness:
  "run [Handler, Handler, Handler, Handler, Goroutine 0, Goroutine 0, Goroutine 0,
        Goroutine 1, Goroutine 1, Goroutine 1, Handler, Handler]
     (serve (metricsHandler_flags
        \<lparr>requestTimeout = 59 * Second, disableObjectStore = False, disableInstance = False\<rparr>
        0 [])) =
     Some \<lparr>handler = [Cancel 0], goroutines = [[], []], wg = 0,
           ctxs = [\<lparr>deadline = Some (59 * Second), cancelled = False\<rparr>],
           spawned = [(SpawnMain, 0), (ObjectStoreMain, 0)], responded = True,
           panicked = False\<rparr>
   \<and> stillRunning \<lparr>handler = [Cancel 0], goroutines = [[], []], wg = 0,
           ctxs = [\<lparr>deadline = Some (59 * Second), cancelled = False\<rparr>],
           spawned = [(SpawnMain, 0), (ObjectStoreMain, 0)], responded = True,
           panicked = False\<rparr> = []"
proof -
  define F where "F = \<lparr>requestTimeout = 59 * Second, disableObjectStore = False,
      disableInstance = False\<rparr>"
  define S where "S = \<lparr>handler = [Cancel 0], goroutines = [[], []], wg = 0,
           ctxs = [\<lparr>deadline = Some (59 * Second), cancelled = False\<rparr>],
           spawned = [(SpawnMain, 0), (ObjectStoreMain, 0)], responded = True,
           panicked = False\<rparr>"
  have r: "run [Handler, Handler, Handler, Handler, Goroutine 0, Goroutine 0, Goroutine 0,
        Goroutine 1, Goroutine 1, Goroutine 1, Handler, Handler]
     (serve (metricsHandler_flags F 0 [])) = Some S"
    unfolding S_def F_def
    by (simp add: metricsHandler_flags_def serve_def thread_step_def wgAdd_def
        WithTimeout_def Background_def)
  have f: "\<not> disableObjectStore F \<or> disableInstance F"
    by (simp add: F_def)
  have resp: "responded S"
    by (simp add: S_def)
  from r flags_handler_waits [OF f r resp] show ?thesis
    unfolding S_def F_def by (intro conjI)
qed

text \<open>
  C1 fails in the remaining case of the flag-configured handler, whose \<^verbatim>\<open>wg.Wait()\<close>
  stands inside the branch of the object-store probe. With the object store disabled and
  the instance probe enabled, three steps of the handler write the response while
  \<^verbatim>\<open>spawnMain\<close> has not returned.
\<close>

theorem response_before_spawnMain_returns:
  "run [Handler, Handler, Handler]
     (serve (metricsHandler_flags
        \<lparr>requestTimeout = 59 * Second, disableObjectStore = True, disableInstance = False\<rparr>
        0 [])) =
     Some \<lparr>handler = [Cancel 0], goroutines = [[Call SpawnMain 0, WgDone, Log]], wg = 1,
           ctxs = [\<lparr>deadline = Some (59 * Second), cancelled = False\<rparr>],
           spawned = [(SpawnMain, 0)], responded = True, panicked = False\<rparr>
   \<and> stillRunning \<lparr>handler = [Cancel 0], goroutines = [[Call SpawnMain 0, WgDone, Log]], wg = 1,
           ctxs = [\<lparr>deadline = Some (59 * Second), cancelled = False\<rparr>],
           spawned = [(SpawnMain, 0)], responded = True, panicked = False\<rparr> = [(SpawnMain, 0)]"
  by (simp add: metricsHandler_flags_def serve_def thread_step_def wgAdd_def stillRunning_def
      WithTimeout_def Background_def)

section \<open>The request timeout\<close>

text \<open>
  C4, as the code has it. In \<^verbatim>\<open>main.go\<close>: a \<^verbatim>\<open>timeout\<close> parameter that is absent
  (or empty) or does not parse leaves the default request timeout, a parameter that
  parses gives the timeout, and the request is served in each case. The flag-configured
  handler does not read the parameter: its timeout is the configured one for every
  request.
\<close>

theorem timeout_parameter:
  "(Get query ''timeout'' = [] \<longrightarrow>
      contexts (metricsHandler pd now query) = [WithTimeout Background defaultRequestTimeout now])
   \<and> (\<forall>err. pd (Get query ''timeout'') = Inl err \<longrightarrow>
      contexts (metricsHandler pd now query) = [WithTimeout Background defaultRequestTimeout now])
   \<and> (\<forall>v. Get query ''timeout'' \<noteq> [] \<and> pd (Get query ''timeout'') = Inr v \<longrightarrow>
      contexts (metricsHandler pd now query) = [WithTimeout Background v now])
   \<and> (\<exists>ts s. run ts (serve (metricsHandler pd now query)) = Some s \<and> responded s)
   \<and> contexts (metricsHandler_flags flags now query) =
       [WithTimeout Background (requestTimeout flags) now]
   \<and> deadline (WithTimeout Background d now) = Some (now + d)"
proof (intro conjI allI impI)
  show "contexts (metricsHandler pd now query) = [WithTimeout Background defaultRequestTimeout now]"
    if "Get query ''timeout'' = []"
    using that by (simp add: metricsHandler_def Let_def)
  show "contexts (metricsHandler pd now query) = [WithTimeout Background defaultRequestTimeout now]"
    if "pd (Get query ''timeout'') = Inl err" for err
    using that by (simp add: metricsHandler_def Let_def)
  show "contexts (metricsHandler pd now query) = [WithTimeout Background v now]"
    if "Get query ''timeout'' \<noteq> [] \<and> pd (Get query ''timeout'') = Inr v" for v
    using that by (simp add: metricsHandler_def Let_def)
  have "responded \<lparr>handler = [Cancel 0], goroutines = [[], []], wg = 0,
         ctxs = contexts (metricsHandler pd now query),
         spawned = [(SpawnMain, 0), (ObjectStoreMain, 0)], responded = True,
         panicked = False\<rparr>"
    by simp
  with main_handler_responds [of pd now query]
  show "\<exists>ts s. run ts (serve (metricsHandler pd now query)) = Some s \<and> responded s"
    by (intro exI conjI)
  show "contexts (metricsHandler_flags flags now query) =
       [WithTimeout Background (requestTimeout flags) now]"
    by (simp add: metricsHandler_flags_def Let_def)
  show "deadline (WithTimeout Background d now) = Some (now + d)"
    by (simp add: WithTimeout_def Background_def)
qed

theorem timeout_parameter_witness:
  "contexts (metricsHandler ParseDuration_integral 0 []) =
     [WithTimeout Background defaultRequestTimeout 0]
   \<and> contexts (metricsHandler ParseDuration_integral 0 [(''timeout'', [''soon''])]) =
     [WithTimeout Background defaultRequestTimeout 0]
   \<and> contexts (metricsHandler ParseDuration_integral 0 [(''timeout'', [''5s''])]) =
     [WithTimeout Background (5 * Second) 0]"
proof -
  have g: "Get [] ''timeout'' = []"
    "Get [(''timeout'', [''soon''])] ''timeout'' = ''soon''"
    "Get [(''timeout'', [''5s''])] ''timeout'' = ''5s''"
    by (simp_all add: Get_def)
  note A = timeout_parameter [of "[]" ParseDuration_integral 0 undefined 0,
      THEN conjunct1, rule_format]
  note B = timeout_parameter [of "[(''timeout'', [''soon''])]" ParseDuration_integral 0 undefined 0,
      THEN conjunct2, THEN conjunct1, rule_format]
  note C = timeout_parameter [of "[(''timeout'', [''5s''])]" ParseDuration_integral 0 undefined 0,
      THEN conjunct2, THEN conjunct2, THEN conjunct1, rule_format]
  have a: "contexts (metricsHandler ParseDuration_integral 0 []) =
     [WithTimeout Background defaultRequestTimeout 0]"
    by (rule A) (rule g)
  have b: "contexts (metricsHandler ParseDuration_integral 0 [(''timeout'', [''soon''])]) =
     [WithTimeout Background defaultRequestTimeout 0]"
    by (rule B) (simp add: g ParseDuration_integral_examples)
  have c: "contexts (metricsHandler ParseDuration_integral 0 [(''timeout'', [''5s''])]) =
     [WithTimeout Background (5 * Second) 0]"
    by (rule C) (simp add: g ParseDuration_integral_examples)
  from a b c show ?thesis by simp
qed

text \<open>
  C4 as stated fails on the flag-configured handler: the parameter \<^verbatim>\<open>5s\<close>
  parses, and the deadline is still the configured 59 seconds.
\<close>

theorem flags_handler_ignores_timeout_parameter:
  "ParseDuration_integral (Get [(''timeout'', [''5s''])] ''timeout'') = Inr (5 * Second)
   \<and> map deadline (contexts (metricsHandler_flags
        \<lparr>requestTimeout = 59 * Second, disableObjectStore = False, disableInstance = False\<rparr>
        0 [(''timeout'', [''5s''])])) = [Some (59 * Second)]
   \<and> contexts (metricsHandler_flags
        \<lparr>requestTimeout = 59 * Second, disableObjectStore = False, disableInstance = False\<rparr>
        0 [(''timeout'', [''5s''])]) \<noteq> [WithTimeout Background (5 * Second) 0]"
  by (simp add: Get_def ParseDuration_integral_examples metricsHandler_flags_def
      WithTimeout_def Background_def Second_def)

text \<open>
  C10: in \<^verbatim>\<open>main.go\<close> a parameter that parses to zero or to a negative duration
  (\<^verbatim>\<open>0s\<close>, \<^verbatim>\<open>-5s\<close>) is taken as the timeout, not replaced by the default; the
  context is then done at its creation and from then on.
\<close>

theorem nonpositive_timeout_accepted:
  assumes "Get query ''timeout'' \<noteq> []" and "pd (Get query ''timeout'') = Inr d" and "d \<le> 0"
  shows "contexts (metricsHandler pd now query) = [WithTimeout Background d now]
       \<and> contexts (metricsHandler pd now query) \<noteq> [WithTimeout Background defaultRequestTimeout now]
       \<and> Done (WithTimeout Background d now) now
       \<and> (\<forall>t. now \<le> t \<longrightarrow> Done (WithTimeout Background d now) t)"
  using assms
  by (simp add: metricsHandler_def Let_def WithTimeout_def Background_def Done_def
      defaultRequestTimeout_def Second_def)

theorem nonpositive_timeout_accepted_witness:
  "ParseDuration_integral ''0s'' = Inr 0
   \<and> contexts (metricsHandler ParseDuration_integral 0 [(''timeout'', [''0s''])]) =
       [WithTimeout Background 0 0]
   \<and> Done (WithTimeout Background 0 0) 0
   \<and> ParseDuration_integral ''-5s'' = Inr (- 5 * Second)
   \<and> contexts (metricsHandler ParseDuration_integral 0 [(''timeout'', [''-5s''])]) =
       [WithTimeout Background (- 5 * Second) 0]
   \<and> Done (WithTimeout Background (- 5 * Second) 0) 0"
proof -
  have g: "Get [(''timeout'', [''0s''])] ''timeout'' = ''0s''"
    "Get [(''timeout'', [''-5s''])] ''timeout'' = ''-5s''"
    by (simp_all add: Get_def)
  have a: "contexts (metricsHandler ParseDuration_integral 0 [(''timeout'', [''0s''])]) =
       [WithTimeout Background 0 0] \<and> Done (WithTimeout Background 0 0) 0"
    using nonpositive_timeout_accepted
      [of "[(''timeout'', [''0s''])]" ParseDuration_integral 0 0]
    by (simp add: g ParseDuration_integral_examples)
  have b: "contexts (metricsHandler ParseDuration_integral 0 [(''timeout'', [''-5s''])]) =
       [WithTimeout Background (- 5 * Second) 0] \<and> Done (WithTimeout Background (- 5 * Second) 0) 0"
    using nonpositive_timeout_accepted
      [of "[(''timeout'', [''-5s''])]" ParseDuration_integral "- 5 * Second" 0]
    by (simp add: g ParseDuration_integral_examples Second_def)
  from a b show ?thesis
    by (simp add: ParseDuration_integral_examples)
qed

section \<open>The provider client's context\<close>

text \<open>
  C6, as the code has it. When authentication leaves the client's context alone, the
  client that \<^verbatim>\<open>getProvider(ctx)\<close> of the flag-configured file returns carries
  \<open>ctx\<close>, so with a deadline \<open>d\<close> every call through it returns by the later of \<open>d\<close>
  and the instant of the call, and returns an error when no response has come before
  then. \<^verbatim>\<open>getProvider()\<close> of \<^verbatim>\<open>main.go\<close> takes no context and returns the client
  with the context \<^verbatim>\<open>NewClient\<close> gave it; when that is none, a call whose response
  never comes never returns.
\<close>

theorem getProvider_ctx_binds_context:
  assumes "\<And>p opts. Context (fst (AuthenticateV3 p opts)) = Context p"
  shows "(\<forall>provider. getProvider_ctx Getenv NewClient AuthenticateV3 ctx = Inr provider \<longrightarrow>
            Context provider = Some ctx
            \<and> (\<forall>d sent reply. deadline ctx = Some d \<longrightarrow>
                 (\<exists>t res. Request provider sent reply = Some (t, res) \<and> t \<le> max d sent)
                 \<and> ((\<forall>r. reply = Some r \<longrightarrow> max d sent \<le> r) \<longrightarrow>
                      (\<exists>t e. Request provider sent reply = Some (t, Inl e) \<and> t \<le> max d sent))))
       \<and> (\<forall>fresh provider. NewClient (Getenv ''OS_AUTH_URL'') = Inr fresh
            \<and> getProvider Getenv NewClient AuthenticateV3 = Inr provider \<longrightarrow>
            Context provider = Context fresh
            \<and> (Context fresh = None \<longrightarrow> (\<forall>sent. Request provider sent None = None)))"
proof (intro conjI allI impI)
  fix provider
  assume r: "getProvider_ctx Getenv NewClient AuthenticateV3 ctx = Inr provider"
  then obtain fresh where
    a: "AuthenticateV3 (fresh\<lparr>Context := Some ctx\<rparr>) (optsFromEnv Getenv) = (provider, None)"
    by (auto simp: getProvider_ctx_def Let_def split: sum.splits prod.splits option.splits)
  have "Context (fst (AuthenticateV3 (fresh\<lparr>Context := Some ctx\<rparr>) (optsFromEnv Getenv))) =
      Context (fresh\<lparr>Context := Some ctx\<rparr>)"
    by (rule assms)
  with a show c: "Context provider = Some ctx"
    by simp
  fix d sent reply
  assume d: "deadline ctx = Some d"
  from c d show "\<exists>t res. Request provider sent reply = Some (t, res) \<and> t \<le> max d sent"
    by (cases reply) (auto simp: Request_def firesAt_def)
  assume "\<forall>r. reply = Some r \<longrightarrow> max d sent \<le> r"
  with c d show "\<exists>t e. Request provider sent reply = Some (t, Inl e) \<and> t \<le> max d sent"
    by (cases reply) (auto simp: Request_def firesAt_def)
next
  fix fresh provider
  assume "NewClient (Getenv ''OS_AUTH_URL'') = Inr fresh
            \<and> getProvider Getenv NewClient AuthenticateV3 = Inr provider"
  then have a: "AuthenticateV3 fresh (optsFromEnv Getenv) = (provider, None)"
    by (auto simp: getProvider_def Let_def split: sum.splits prod.splits option.splits)
  have "Context (fst (AuthenticateV3 fresh (optsFromEnv Getenv))) = Context fresh"
    by (rule assms)
  with a show c: "Context provider = Context fresh"
    by simp
  fix sent
  assume "Context fresh = None"
  with c show "Request provider sent None = None"
    by (simp add: Request_def)
qed

lemma passwordLogin_keeps_context: "Context (fst (passwordLogin p opts)) = Context p"
  by (simp add: passwordLogin_def)

lemma optsFromEnv_cloudEnv:
  "optsFromEnv cloudEnv =
     \<lparr>Username = ''probe'', DomainName = ''Default'', Password = ''secret'',
      ScopeProjectName = ''monitoring'', ScopeDomainName = ''Default''\<rparr>"
  by (simp add: optsFromEnv_def cloudEnv_def)

text \<open>Without credentials in the environment neither function returns a client.\<close>

lemma getProvider_unsetEnv:
  "getProvider unsetEnv freshClient passwordLogin =
     Inl ''authentication failure: You must provide a password to authenticate''"
  "getProvider_ctx unsetEnv freshClient passwordLogin ctx =
     Inl ''authentication failure: You must provide a password to authenticate''"
  by (simp_all add: getProvider_def getProvider_ctx_def optsFromEnv_def unsetEnv_def
      freshClient_def passwordLogin_def)

theorem getProvider_ctx_binds_context_witness:
  "getProvider_ctx cloudEnv freshClient passwordLogin
      (WithTimeout Background defaultRequestTimeout 0) =
     Inr \<lparr>IdentityEndpoint = ''https://keystone.example:5000/v3'', TokenID = ''token'',
          Context = Some (WithTimeout Background defaultRequestTimeout 0)\<rparr>
   \<and> Context \<lparr>IdentityEndpoint = ''https://keystone.example:5000/v3'', TokenID = ''token'',
          Context = Some (WithTimeout Background defaultRequestTimeout 0)\<rparr> =
       Some (WithTimeout Background defaultRequestTimeout 0)
   \<and> Request \<lparr>IdentityEndpoint = ''https://keystone.example:5000/v3'', TokenID = ''token'',
          Context = Some (WithTimeout Background defaultRequestTimeout 0)\<rparr> (5 * Second) None =
       Some (59 * Second, Inl ''context deadline exceeded'')"
proof -
  define P where "P = \<lparr>IdentityEndpoint = ''https://keystone.example:5000/v3'',
      TokenID = ''token'', Context = Some (WithTimeout Background defaultRequestTimeout 0)\<rparr>"
  have r: "getProvider_ctx cloudEnv freshClient passwordLogin
      (WithTimeout Background defaultRequestTimeout 0) = Inr P"
    unfolding P_def
    by (simp add: getProvider_ctx_def optsFromEnv_cloudEnv freshClient_def passwordLogin_def)
       (simp add: cloudEnv_def)
  note T = getProvider_ctx_binds_context
    [OF passwordLogin_keeps_context, THEN conjunct1, rule_format, OF r]
  from T have c: "Context P = Some (WithTimeout Background defaultRequestTimeout 0)"
    by (rule conjunct1)
  have q: "Request P (5 * Second) None = Some (59 * Second, Inl ''context deadline exceeded'')"
    by (simp add: Request_def c firesAt_def Err_def WithTimeout_def Background_def
        defaultRequestTimeout_def Second_def)
  from r c q show ?thesis
    unfolding P_def by (intro conjI)
qed

text \<open>
  C6 as stated fails on \<^verbatim>\<open>main.go\<close>: with the same environment and cloud, the client
  it returns has no context, and a call through it whose response never comes never
  returns.
\<close>

theorem getProvider_without_context:
  "getProvider cloudEnv freshClient passwordLogin =
     Inr \<lparr>IdentityEndpoint = ''https://keystone.example:5000/v3'', TokenID = ''token'',
          Context = None\<rparr>
   \<and> Request \<lparr>IdentityEndpoint = ''https://keystone.example:5000/v3'', TokenID = ''token'',
          Context = None\<rparr> (5 * Second) None = None"
proof -
  have "getProvider cloudEnv freshClient passwordLogin =
     Inr \<lparr>IdentityEndpoint = ''https://keystone.example:5000/v3'', TokenID = ''token'',
          Context = None\<rparr>"
    by (simp add: getProvider_def optsFromEnv_cloudEnv freshClient_def passwordLogin_def)
       (simp add: cloudEnv_def)
  then show ?thesis
    by (simp add: Request_def)
qed

end
